theory Spec2Isabelle
  imports Main
begin

section \<open>Time values\<close>

text \<open>
  Python's \<open>datetime\<close> counts microseconds. A timezone-aware \<open>datetime\<close> is modelled by
  the instant it denotes on the UTC time line (microseconds) together with the UTC offset
  of its \<open>tzinfo\<close> (microseconds, taken as fixed for one object). Aware values compare by
  their instants; \<open>d + timedelta\<close> moves the instant and keeps the \<open>tzinfo\<close>. The range
  limit of \<open>datetime\<close> (years 1 to 9999) and changes of offset inside one zone are not
  modelled.
\<close>

definition minute :: int where
  "minute = 60000000"

definition hour :: int where
  "hour = 3600000000"

record datetime =
  instant :: int
  utcoffset :: int

definition plus_timedelta :: "datetime \<Rightarrow> int \<Rightarrow> datetime" where
  "plus_timedelta d td = d\<lparr>instant := instant d + td\<rparr>"

text \<open>\<open>max(a, b)\<close> of Python keeps \<open>a\<close> unless \<open>b > a\<close>.\<close>

definition max_dt :: "datetime \<Rightarrow> datetime \<Rightarrow> datetime" where
  "max_dt a b = (if instant b > instant a then b else a)"

type_synonym slot = "datetime \<times> datetime"

definition slot_start :: "slot \<Rightarrow> int" where
  "slot_start s = instant (fst s)"

definition slot_end :: "slot \<Rightarrow> int" where
  "slot_end s = instant (snd s)"


section \<open>The free-slot sweep of \<open>check_availability\<close>\<close>

text \<open>
  The emission loop (it occurs twice in the source, once per busy event and once after the
  last one):
  \<^verbatim>\<open>
  while current_time + dt.timedelta(hours=1) <= limit:
      slot_end = current_time + dt.timedelta(hours=1)
      available_slots.append(f"{current_time...} - {slot_end...}")
      current_time += dt.timedelta(hours=1)
  \<close>
  The two mutable locals \<open>available_slots\<close> and \<open>current_time\<close> are passed and returned.
  The source appends the rendered text of each slot; the model appends the pair
  \<open>(current_time, slot_end)\<close> and renders the list when the reply is built.
\<close>

function emit_slots :: "datetime \<Rightarrow> slot list \<Rightarrow> datetime \<Rightarrow> slot list \<times> datetime" where
  "emit_slots limit available_slots current_time =
     (if instant (plus_timedelta current_time hour) \<le> instant limit
      then emit_slots limit
             (available_slots @ [(current_time, plus_timedelta current_time hour)])
             (plus_timedelta current_time hour)
      else (available_slots, current_time))"
  by pat_completeness auto
termination
  by (relation "measure (\<lambda>(limit, acc, cur). nat (instant limit - instant cur))")
     (auto simp: plus_timedelta_def hour_def)

declare emit_slots.simps [simp del]

text \<open>
  The loop over the busy events, on events whose times have been read:
  \<^verbatim>\<open>
  for event in busy_slots:
      event_start = ...
      if current_time < event_start:
          while current_time + dt.timedelta(hours=1) <= event_start: ...
      current_time = max(current_time, event_end)
  \<close>
\<close>

fun sweep :: "slot list \<Rightarrow> slot list \<Rightarrow> datetime \<Rightarrow> slot list \<times> datetime" where
  "sweep [] available_slots current_time = (available_slots, current_time)"
| "sweep ((event_start, event_end) # busy) available_slots current_time =
     (case (if instant current_time < instant event_start
            then emit_slots event_start available_slots current_time
            else (available_slots, current_time))
      of (slots1, current1) \<Rightarrow> sweep busy slots1 (max_dt current1 event_end))"

text \<open>
  Lines 69 to 84: start with no slots and the cursor at \<open>start_dt\<close>, sweep the busy
  events, then run the emission loop up to \<open>end_dt\<close>.
\<close>

definition free_slots :: "datetime \<Rightarrow> datetime \<Rightarrow> slot list \<Rightarrow> slot list" where
  "free_slots start_dt end_dt busy =
     (case sweep busy [] start_dt of
        (slots1, current1) \<Rightarrow> fst (emit_slots end_dt slots1 current1))"

text \<open>Wall-clock values of one day in UTC, for the scenarios.\<close>

definition at :: "int \<Rightarrow> int \<Rightarrow> datetime" where
  "at h m = \<lparr>instant = h * hour + m * minute, utcoffset = 0\<rparr>"

section \<open>The calendar tools\<close>

text \<open>
  Exceptions (all subclasses of Python's \<open>Exception\<close>) are values; a computation that may
  raise returns \<open>exception + 'a\<close>. Inside the tools an exception travels with its text
  \<open>str(e)\<close>, which the \<open>except\<close> clauses print.
\<close>

datatype exception =
  ParserError | TypeError | KeyError | IndexError | HttpError | AuthError | UnicodeEncodeError

type_synonym raised = "exception \<times> string"

text \<open>
  What \<open>dateutil.parser.parse\<close> returns: a naive \<open>datetime\<close> (no \<open>tzinfo\<close>; its wall-clock
  reading in microseconds) or an aware one.
\<close>

datatype parsed = Naive int | Aware datetime

text \<open>
  An event of the provider's response is a dictionary; its entries \<open>start\<close> and \<open>end\<close> are
  dictionaries that hold \<open>dateTime\<close> for a timed event and only \<open>date\<close> for an all-day one.
\<close>

type_synonym event = "string \<rightharpoonup> (string \<rightharpoonup> string)"

text \<open>The body that \<open>book_appointment\<close> sends to \<open>events().insert\<close>.\<close>

record event_body =
  summary :: string
  description :: string
  start_dateTime :: datetime
  end_dateTime :: datetime
  timeZone :: int

text \<open>
  The collaborators outside the repository, as parameters:
  \<^item> \<open>service\<close>: \<open>get_calendar_service()\<close>; \<open>None\<close> when it returns a service object,
    \<open>Some e\<close> when it raises \<open>e\<close>;
  \<^item> \<open>stdout_encodes\<close>: the characters beyond ASCII that the encoding of \<open>sys.stdout\<close>
    can encode (every encoding of a standard stream encodes the ASCII characters); the
    stream is taken to be open;
  \<^item> \<open>parse\<close>: \<open>dateutil.parser.parse\<close> on a string; \<open>None\<close> when it raises \<open>ParserError\<close>;
  \<^item> \<open>local_tz\<close>: the UTC offset of \<open>get_localzone()\<close>;
  \<^item> \<open>events_list\<close>: \<open>service.events().list(calendarId="primary", timeMin, timeMax,
    singleEvents=True, orderBy="startTime").execute()\<close>; the result is the value of the
    response's \<open>items\<close> entry, \<open>None\<close> when the response has none;
  \<^item> \<open>events_insert\<close>: \<open>service.events().insert(calendarId="primary", body).execute()\<close>;
    the result is the created event's \<open>htmlLink\<close> entry, if any.
  The times are passed to the provider as the \<open>datetime\<close> values whose \<open>isoformat()\<close> the source
  sends.
\<close>

record env =
  service :: "raised option"
  parse :: "string \<Rightarrow> parsed option"
  local_tz :: int
  events_list :: "datetime \<Rightarrow> datetime \<Rightarrow> raised + event list option"
  events_insert :: "event_body \<Rightarrow> raised + string option"
  stdout_encodes :: "char \<Rightarrow> bool"

text \<open>
  \<open>date_parse(x)\<close>. On \<open>None\<close> (a missing dictionary entry) dateutil raises \<open>TypeError\<close>;
  on a string it cannot read it raises \<open>ParserError\<close>, whose text quotes the string (after
  \<open>Unknown string format:\<close> or, for a string without a date, after another fixed ASCII
  prefix).
\<close>

definition date_parse :: "env \<Rightarrow> string option \<Rightarrow> raised + parsed" where
  "date_parse E timestr =
     (case timestr of
        None \<Rightarrow>
          Inl (TypeError, ''Parser must be a string or character stream, not NoneType'')
      | Some s \<Rightarrow>
          (case parse E s of
             None \<Rightarrow> Inl (ParserError, ''Unknown string format: '' @ s)
           | Some p \<Rightarrow> Inr p))"

text \<open>
  \<^verbatim>\<open>
  if start_dt.tzinfo is None:
      start_dt = start_dt.replace(tzinfo=local_tz)
  \<close>
\<close>

definition localize :: "int \<Rightarrow> parsed \<Rightarrow> datetime" where
  "localize tz p =
     (case p of Naive w \<Rightarrow> \<lparr>instant = w - tz, utcoffset = tz\<rparr> | Aware d \<Rightarrow> d)"

text \<open>
  Comparing the cursor, which is aware, with a naive \<open>datetime\<close> raises \<open>TypeError\<close>
  (\<open>current_time < event_start\<close> on line 74, \<open>max(current_time, ...)\<close> on line 79).
\<close>

definition aware :: "parsed \<Rightarrow> raised + datetime" where
  "aware p =
     (case p of
        Naive w \<Rightarrow>
          Inl (TypeError,
               ''can'' @ [CHR 0x27] @ ''t compare offset-naive and offset-aware datetimes'')
      | Aware d \<Rightarrow> Inr d)"

text \<open>
  \<open>date_parse(event[key].get("dateTime"))\<close>, as a value the cursor is compared with:
  \<open>event[key]\<close> raises \<open>KeyError\<close> when the entry is absent, \<open>.get\<close> gives \<open>None\<close> when
  \<open>dateTime\<close> is absent.
\<close>

definition event_time :: "env \<Rightarrow> event \<Rightarrow> string \<Rightarrow> raised + datetime" where
  "event_time E event key =
     (case event key of
        None \<Rightarrow> Inl (KeyError, [CHR 0x27] @ key @ [CHR 0x27])
      | Some d \<Rightarrow>
          (case date_parse E (d ''dateTime'') of Inl e \<Rightarrow> Inl e | Inr p \<Rightarrow> aware p))"

text \<open>Lines 72 to 79: the loop over the provider's events, reading each event's times.\<close>

fun sweep_events ::
  "env \<Rightarrow> event list \<Rightarrow> slot list \<Rightarrow> datetime \<Rightarrow> raised + slot list \<times> datetime" where
  "sweep_events E [] available_slots current_time = Inr (available_slots, current_time)"
| "sweep_events E (event # busy_slots) available_slots current_time =
     (case event_time E event ''start'' of
        Inl e \<Rightarrow> Inl e
      | Inr event_start \<Rightarrow>
          (case (if instant current_time < instant event_start
                 then emit_slots event_start available_slots current_time
                 else (available_slots, current_time))
           of (slots1, current1) \<Rightarrow>
             (case event_time E event ''end'' of
                Inl e \<Rightarrow> Inl e
              | Inr event_end \<Rightarrow> sweep_events E busy_slots slots1 (max_dt current1 event_end))))"

text \<open>The busy interval of an event whose two times can be read.\<close>

definition event_interval :: "env \<Rightarrow> event \<Rightarrow> slot option" where
  "event_interval E event =
     (case event_time E event ''start'' of
        Inl e \<Rightarrow> None
      | Inr a \<Rightarrow> (case event_time E event ''end'' of Inl e \<Rightarrow> None | Inr b \<Rightarrow> Some (a, b)))"

text \<open>\<open>strftime('%I:%M %p')\<close>: the wall-clock hour on the 12-hour clock, the minute, AM or PM.\<close>

definition two_digits :: "nat \<Rightarrow> string" where
  "two_digits n = [''0123456789'' ! (n div 10 mod 10), ''0123456789'' ! (n mod 10)]"

definition strftime_IMp :: "datetime \<Rightarrow> string" where
  "strftime_IMp d =
     (let m = nat (((instant d + utcoffset d) div minute) mod 1440); h = m div 60
      in two_digits (if h mod 12 = 0 then 12 else h mod 12) @ '':'' @ two_digits (m mod 60)
           @ '' '' @ (if h < 12 then ''AM'' else ''PM''))"

definition render_slot :: "slot \<Rightarrow> string" where
  "render_slot s = strftime_IMp (fst s) @ '' - '' @ strftime_IMp (snd s)"

fun join :: "string \<Rightarrow> string list \<Rightarrow> string" where
  "join sep [] = []"
| "join sep [x] = x"
| "join sep (x # y # ys) = x @ sep @ join sep (y # ys)"

text \<open>The replies of \<open>check_availability\<close> (lines 67, 87, 89 and 93).\<close>

definition entire_period_free :: "datetime \<Rightarrow> datetime \<Rightarrow> string" where
  "entire_period_free start_dt end_dt =
     ''The entire period from '' @ strftime_IMp start_dt @ '' to '' @ strftime_IMp end_dt
       @ '' is free. Suggest 1-hour slots.''"

definition slots_reply :: "slot list \<Rightarrow> string" where
  "slots_reply available_slots =
     (if available_slots = [] then ''No 1-hour slots are available in the requested timeframe.''
      else ''Here are the available 1-hour slots: '' @ join '', '' (map render_slot available_slots)
             @ ''. Please suggest these to the user.'')"

definition calendar_error :: string where
  "calendar_error =
     ''An error occurred while checking the calendar. Please try again or specify a different time.''"

text \<open>The body of the \<open>try\<close> block of \<open>check_availability\<close>, lines 40 to 89.\<close>

definition check_availability_try :: "env \<Rightarrow> string \<Rightarrow> string \<Rightarrow> raised + string" where
  "check_availability_try E start_time end_time =
     (case service E of
        Some e \<Rightarrow> Inl e
      | None \<Rightarrow>
     (case date_parse E (Some start_time) of
        Inl e \<Rightarrow> Inl e
      | Inr ps \<Rightarrow>
     (case date_parse E (Some end_time) of
        Inl e \<Rightarrow> Inl e
      | Inr pe \<Rightarrow>
     (let start_dt = localize (local_tz E) ps;
          end_dt = localize (local_tz E) pe
      in case events_list E start_dt end_dt of
           Inl e \<Rightarrow> Inl e
         | Inr items \<Rightarrow>
        (let busy_slots = (case items of None \<Rightarrow> [] | Some evs \<Rightarrow> evs)
         in if busy_slots = [] then Inr (entire_period_free start_dt end_dt)
            else (case sweep_events E busy_slots [] start_dt of
                    Inl e \<Rightarrow> Inl e
                  | Inr (slots1, current1) \<Rightarrow>
                      Inr (slots_reply (fst (emit_slots end_dt slots1 current1)))))))))"

text \<open>
  The handlers:
  \<^verbatim>\<open>
  except Exception as e:
      print(f"ERROR in check_availability: {e}")
      return "An error occurred ..."
  \<close>
  \<open>print\<close> encodes the line for \<open>sys.stdout\<close> and raises \<open>UnicodeEncodeError\<close> when the line
  has a character the stream's encoding cannot encode; that exception is raised inside the
  handler and leaves the tool. Otherwise the handler returns its fixed reply.
\<close>

definition is_ascii :: "char \<Rightarrow> bool" where
  "is_ascii c = (of_char c < (128 :: nat))"

definition stdout_accepts :: "env \<Rightarrow> string \<Rightarrow> bool" where
  "stdout_accepts E line = list_all (\<lambda>c. is_ascii c \<or> stdout_encodes E c) line"

definition except_Exception :: "env \<Rightarrow> string \<Rightarrow> raised \<Rightarrow> 'a \<Rightarrow> exception + 'a" where
  "except_Exception E prefix e reply =
     (if stdout_accepts E (prefix @ snd e) then Inr reply else Inl UnicodeEncodeError)"

text \<open>\<open>check_availability\<close>, lines 39 to 93: its reply, or the exception that leaves it.\<close>

definition check_availability :: "env \<Rightarrow> string \<Rightarrow> string \<Rightarrow> exception + string" where
  "check_availability E start_time end_time =
     (case check_availability_try E start_time end_time of
        Inl e \<Rightarrow> except_Exception E ''ERROR in check_availability: '' e calendar_error
      | Inr reply \<Rightarrow> Inr reply)"





text \<open>
  A parser and a provider for the scenarios; the provider rejects every insert, and
  \<open>sys.stdout\<close> encodes ASCII only.
\<close>

definition sample_parse :: "string \<Rightarrow> parsed option" where
  "sample_parse =
     map_of [(''09:00'', Naive (9 * hour)), (''10:00'', Naive (10 * hour)),
             (''12:00'', Naive (12 * hour)),
             (''10:00Z'', Aware (at 10 0)), (''10:30Z'', Aware (at 10 30))]"

definition sample_env :: "event list option \<Rightarrow> env" where
  "sample_env items =
     \<lparr>service = None, parse = sample_parse, local_tz = 0,
      events_list = (\<lambda>timeMin timeMax. Inr items),
      events_insert = (\<lambda>body. Inl (HttpError, ''The specified time range is empty.'')),
      stdout_encodes = (\<lambda>c. False)\<rparr>"

definition timed_event :: "string \<Rightarrow> string \<Rightarrow> event" where
  "timed_event a b = [''start'' \<mapsto> [''dateTime'' \<mapsto> a], ''end'' \<mapsto> [''dateTime'' \<mapsto> b]]"

definition all_day_event :: "string \<Rightarrow> string \<Rightarrow> event" where
  "all_day_event a b = [''start'' \<mapsto> [''date'' \<mapsto> a], ''end'' \<mapsto> [''date'' \<mapsto> b]]"

text \<open>The \<open>dateTime\<close> strings that the entries \<open>start\<close> and \<open>end\<close> of an event hold.\<close>

definition dateTime_texts :: "event \<Rightarrow> string list" where
  "dateTime_texts event =
     concat (map (\<lambda>key. case event key of
                           None \<Rightarrow> []
                         | Some d \<Rightarrow> (case d ''dateTime'' of None \<Rightarrow> [] | Some s \<Rightarrow> [s]))
                 [''start'', ''end''])"

text \<open>An event lacks a time when its \<open>start\<close> or its \<open>end\<close> has no \<open>dateTime\<close> entry.\<close>

definition lacks_dateTime :: "event \<Rightarrow> bool" where
  "lacks_dateTime event =
     ((case event ''start'' of None \<Rightarrow> True | Some d \<Rightarrow> d ''dateTime'' = None)
      \<or> (case event ''end'' of None \<Rightarrow> True | Some d \<Rightarrow> d ''dateTime'' = None))"

section \<open>The runs of the sweep as a relation\<close>

text \<open>
  The same loops, one rule for each way through a loop body: \<open>emit_run limit st st'\<close> holds
  when the emission loop, started in the state \<open>st\<close> (the slots so far and the cursor),
  ends in \<open>st'\<close>.
\<close>

inductive emit_run :: "datetime \<Rightarrow> slot list \<times> datetime \<Rightarrow> slot list \<times> datetime \<Rightarrow> bool"
  for limit :: datetime where
  emit_exit:
    "\<not> instant (plus_timedelta current_time hour) \<le> instant limit
     \<Longrightarrow> emit_run limit (available_slots, current_time) (available_slots, current_time)"
| emit_iter:
    "instant (plus_timedelta current_time hour) \<le> instant limit
     \<Longrightarrow> emit_run limit
           (available_slots @ [(current_time, plus_timedelta current_time hour)],
            plus_timedelta current_time hour) st'
     \<Longrightarrow> emit_run limit (available_slots, current_time) st'"

inductive sweep_run :: "slot list \<Rightarrow> slot list \<times> datetime \<Rightarrow> slot list \<times> datetime \<Rightarrow> bool" where
  sweep_done: "sweep_run [] st st"
| sweep_emit:
    "instant current_time < instant event_start
     \<Longrightarrow> emit_run event_start (available_slots, current_time) (slots1, current1)
     \<Longrightarrow> sweep_run busy (slots1, max_dt current1 event_end) st'
     \<Longrightarrow> sweep_run ((event_start, event_end) # busy) (available_slots, current_time) st'"
| sweep_skip:
    "\<not> instant current_time < instant event_start
     \<Longrightarrow> sweep_run busy (available_slots, max_dt current_time event_end) st'
     \<Longrightarrow> sweep_run ((event_start, event_end) # busy) (available_slots, current_time) st'"

inductive free_slots_run :: "datetime \<Rightarrow> datetime \<Rightarrow> slot list \<Rightarrow> slot list \<Rightarrow> bool" where
  free_slots_runI:
    "sweep_run busy ([], start_dt) st
     \<Longrightarrow> emit_run end_dt st (available_slots, current_time)
     \<Longrightarrow> free_slots_run start_dt end_dt busy available_slots"

section \<open>The agent graph\<close>

text \<open>
  A model response carries its text and the tool calls it requests (a tool's name and
  its arguments). \<open>AgentState\<close> has the one entry \<open>messages\<close>, whose reducer
  \<open>lambda x, y: x + y\<close> appends what a node returns.
\<close>

type_synonym tool_call = "string \<times> (string \<times> string) list"

record message =
  content :: string
  tool_calls :: "tool_call list"

text \<open>
  \<^verbatim>\<open>
  def should_continue(state):
      last_message = state["messages"][-1]
      if last_message.tool_calls:
          return "action"
      return "end"
  \<close>
\<close>

definition should_continue :: "message list \<Rightarrow> exception + string" where
  "should_continue messages =
     (if messages = [] then Inl IndexError
      else if tool_calls (last messages) \<noteq> [] then Inr ''action''
      else Inr ''end'')"

datatype node = Agent | Action | END

text \<open>The mapping of the conditional edge: \<open>{"action": "action", "end": END}\<close>.\<close>

definition route :: "string \<Rightarrow> node option" where
  "route r = (if r = ''action'' then Some Action else if r = ''end'' then Some END else None)"

text \<open>
  The model and the tool node are outside the repository: \<open>agent_runnable\<close> is
  \<open>agent_runnable.invoke(state)\<close>, \<open>tool_node\<close> gives the messages that the tool node
  returns for a state.
\<close>

record agent =
  agent_runnable :: "message list \<Rightarrow> exception + message"
  tool_node :: "message list \<Rightarrow> message list"

definition run_agent :: "agent \<Rightarrow> message list \<Rightarrow> exception + message list" where
  "run_agent G state =
     (case agent_runnable G state of Inl e \<Rightarrow> Inl e | Inr response \<Rightarrow> Inr [response])"

text \<open>
  One step of the compiled graph (lines 72 to 78): the node \<open>agent\<close> runs \<open>run_agent\<close> and
  leaves by the conditional edge; the node \<open>action\<close> runs the tools and leaves by the edge
  to \<open>agent\<close>.
\<close>

fun graph_step :: "agent \<Rightarrow> node \<times> message list \<Rightarrow> exception + node \<times> message list" where
  "graph_step G (Agent, state) =
     (case run_agent G state of
        Inl e \<Rightarrow> Inl e
      | Inr out \<Rightarrow>
          (case should_continue (state @ out) of
             Inl e \<Rightarrow> Inl e
           | Inr r \<Rightarrow>
               (case route r of None \<Rightarrow> Inl KeyError | Some n \<Rightarrow> Inr (n, state @ out))))"
| "graph_step G (Action, state) = Inr (Agent, state @ tool_node G state)"
| "graph_step G (END, state) = Inr (END, state)"

text \<open>
  A run from a node, with a bound on the number of steps (\<open>None\<close> when the bound is
  reached before \<open>END\<close>); it returns the nodes it ran, in order, and the final messages.
\<close>

fun run_graph ::
  "agent \<Rightarrow> nat \<Rightarrow> node \<times> message list \<Rightarrow> node list
     \<Rightarrow> (exception + node list \<times> message list) option" where
  "run_graph G fuel (END, state) visited = Some (Inr (visited, state))"
| "run_graph G 0 (Agent, state) visited = None"
| "run_graph G 0 (Action, state) visited = None"
| "run_graph G (Suc fuel) (Agent, state) visited =
     (case graph_step G (Agent, state) of
        Inl e \<Rightarrow> Some (Inl e)
      | Inr c \<Rightarrow> run_graph G fuel c (visited @ [Agent]))"
| "run_graph G (Suc fuel) (Action, state) visited =
     (case graph_step G (Action, state) of
        Inl e \<Rightarrow> Some (Inl e)
      | Inr c \<Rightarrow> run_graph G fuel c (visited @ [Action]))"

text \<open>The entry point is \<open>agent\<close>; the turn's output is the text of the last message.\<close>

definition agent_app :: "agent \<Rightarrow> nat \<Rightarrow> message list \<Rightarrow> (exception + node list \<times> message list) option" where
  "agent_app G fuel inputs = run_graph G fuel (Agent, inputs) []"

definition turn_output :: "message list \<Rightarrow> string" where
  "turn_output state = content (last state)"

text \<open>A model that answers in plain text, and one that always asks for a tool.\<close>

definition plain_agent :: agent where
  "plain_agent =
     \<lparr>agent_runnable = (\<lambda>state. Inr \<lparr>content = ''Hello! How can I help?'', tool_calls = []\<rparr>),
      tool_node = (\<lambda>state. [])\<rparr>"

section \<open>Notions used to state the properties\<close>







section \<open>Properties of the sweep\<close>

subsection \<open>The emission loop\<close>


lemma instant_plus_timedelta [simp]: "instant (plus_timedelta d td) = instant d + td"
  by (simp add: plus_timedelta_def)

lemma utcoffset_plus_timedelta [simp]: "utcoffset (plus_timedelta d td) = utcoffset d"
  by (simp add: plus_timedelta_def)

lemma emit_slots_append:
  "emit_slots L (pre @ acc) cur
     = (pre @ fst (emit_slots L acc cur), snd (emit_slots L acc cur))"
proof (induction L acc cur arbitrary: pre rule: emit_slots.induct)
  case (1 L acc cur)
  show ?case
  proof (cases "instant (plus_timedelta cur hour) \<le> instant L")
    case True
    then show ?thesis
      using "1.IH" [OF True, of pre]
      by (simp add: emit_slots.simps [of L "pre @ acc" cur] emit_slots.simps [of L acc cur])
  next
    case False
    then show ?thesis
      by (simp add: emit_slots.simps [of L "pre @ acc" cur] emit_slots.simps [of L acc cur])
  qed
qed

lemma emit_slots_step:
  assumes "instant cur + hour \<le> instant L"
  shows "emit_slots L [] cur
     = ((cur, plus_timedelta cur hour) # fst (emit_slots L [] (plus_timedelta cur hour)),
        snd (emit_slots L [] (plus_timedelta cur hour)))"
  using assms emit_slots_append [of L "[(cur, plus_timedelta cur hour)]" "[]" "plus_timedelta cur hour"]
  by (simp add: emit_slots.simps [of L "[]" cur])

lemma emit_slots_stop:
  assumes "\<not> instant cur + hour \<le> instant L"
  shows "emit_slots L [] cur = ([], cur)"
  using assms by (simp add: emit_slots.simps [of L "[]" cur])

lemma emit_cursor_induct:
  fixes L :: datetime
  assumes "\<And>cur. (instant cur + hour \<le> instant L \<Longrightarrow> P (plus_timedelta cur hour)) \<Longrightarrow> P cur"
  shows "P cur"
proof -
  have "l = L \<longrightarrow> P c" for l :: datetime and a :: "slot list" and c :: datetime
    by (induction l a c rule: emit_slots.induct) (auto intro: assms)
  then show ?thesis by blast
qed







subsection \<open>The loop over the busy events\<close>



declare sweep.simps(2) [simp del]

lemma slot_start_pair [simp]: "slot_start (a, b) = instant a"
  by (simp add: slot_start_def)

lemma slot_end_pair [simp]: "slot_end (a, b) = instant b"
  by (simp add: slot_end_def)





lemma instant_max_dt [simp]: "instant (max_dt a b) = max (instant a) (instant b)"
  by (simp add: max_dt_def)






subsection \<open>The whole sweep\<close>











subsection \<open>Gaps shorter than one hour\<close>









subsection \<open>The sweep without busy events\<close>

lemma plus_timedelta_zero [simp]: "plus_timedelta d 0 = d"
  by (simp add: plus_timedelta_def)

lemma plus_timedelta_twice [simp]:
  "plus_timedelta (plus_timedelta d a) b = plus_timedelta d (a + b)"
  by (simp add: plus_timedelta_def)

lemma emit_slots_closed_form:
  "emit_slots L [] cur
     = (map (\<lambda>i. (plus_timedelta cur (int i * hour), plus_timedelta cur (int (Suc i) * hour)))
            [0 ..< nat ((instant L - instant cur) div hour)],
        plus_timedelta cur (int (nat ((instant L - instant cur) div hour)) * hour))"
proof (induction cur rule: emit_cursor_induct [where L = L])
  case (1 cur)
  let ?n = "nat ((instant L - instant cur) div hour)"
  show ?case
  proof (cases "instant cur + hour \<le> instant L")
    case True
    let ?m = "nat ((instant L - instant (plus_timedelta cur hour)) div hour)"
    have "(instant L - instant cur - hour) div hour = (instant L - instant cur) div hour - 1"
      by (simp add: hour_def)
    moreover have "1 \<le> (instant L - instant cur) div hour"
      using True by (simp add: hour_def)
    ultimately have n: "?n = Suc ?m" by (simp add: algebra_simps)
    have shift: "plus_timedelta (plus_timedelta cur hour) (int i * hour)
                   = plus_timedelta cur (int (Suc i) * hour)" for i
      by (simp add: algebra_simps)
    show ?thesis
      unfolding n
      by (simp only: emit_slots_step [OF True] 1 [OF True] fst_conv snd_conv shift
            map_upt_Suc list.map_comp comp_def)
         (simp add: algebra_simps)
  next
    case False
    then have "(instant L - instant cur) div hour \<le> 0"
      by (simp add: hour_def)
    then have "?n = 0" by simp
    then show ?thesis using False by (simp add: emit_slots_stop)
  qed
qed

lemma free_slots_Nil:
  "free_slots start_dt end_dt []
     = map (\<lambda>i. (plus_timedelta start_dt (int i * hour),
                  plus_timedelta start_dt (int (Suc i) * hour)))
           [0 ..< nat ((instant end_dt - instant start_dt) div hour)]"
  by (simp add: free_slots_def emit_slots_closed_form)

subsection \<open>The window 09:00 to 12:00 with one event from 10:00 to 10:30\<close>


subsection \<open>Slots are ordered, disjoint, one hour long, clear of busy intervals\<close>









subsection \<open>The scenario with one half-hour event\<close>

text \<open>
  C4 (as the code behaves). Window 09:00 to 12:00 with the single busy interval 10:00 to
  10:30: the sweep emits 09:00 to 10:00, moves the cursor to the end of the event (10:30)
  and resumes there, so the second slot is 10:30 to 11:30; the remainder 11:30 to 12:00 is
  shorter than one hour and is dropped.
\<close>

theorem free_slots_half_hour_event:
  "free_slots (at 9 0) (at 12 0) [(at 10 0, at 10 30)]
     = [(at 9 0, at 10 0), (at 10 30, at 11 30)]"
  by (simp add: free_slots_def emit_slots.simps at_def hour_def minute_def
        plus_timedelta_def max_dt_def sweep.simps(2))

text \<open>
  C4 (as stated) fails: the slots are not 09:00 to 10:00 and 11:00 to 12:00.
\<close>

theorem free_slots_half_hour_event_not_hour_aligned:
  "free_slots (at 9 0) (at 12 0) [(at 10 0, at 10 30)]
     \<noteq> [(at 9 0, at 10 0), (at 11 0, at 12 0)]"
  by (simp add: free_slots_def emit_slots.simps at_def hour_def minute_def
        plus_timedelta_def max_dt_def sweep.simps(2))

subsection \<open>The sweep as a relation: one result for one input\<close>

lemma emit_run_total: "emit_run L (acc, cur) (emit_slots L acc cur)"
proof (induction L acc cur rule: emit_slots.induct)
  case (1 L acc cur)
  show ?case
  proof (cases "instant (plus_timedelta cur hour) \<le> instant L")
    case True
    from emit_iter [OF True "1.IH" [OF True]] True show ?thesis
      by (simp add: emit_slots.simps [of L acc cur])
  next
    case False
    from emit_exit [OF False] False show ?thesis
      by (simp add: emit_slots.simps [of L acc cur])
  qed
qed

lemma emit_run_result: "emit_run L st st' \<Longrightarrow> st' = emit_slots L (fst st) (snd st)"
proof (induction rule: emit_run.induct)
  case (emit_exit cur acc)
  then show ?case by (simp add: emit_slots.simps [of L acc cur])
next
  case (emit_iter cur acc st')
  then show ?case by (simp add: emit_slots.simps [of L acc cur])
qed

lemma sweep_run_total: "sweep_run busy (acc, cur) (sweep busy acc cur)"
proof (induction busy arbitrary: acc cur)
  case Nil
  show ?case by (simp add: sweep_done)
next
  case (Cons b busy)
  obtain es ee where b: "b = (es, ee)" by (cases b)
  show ?case
  proof (cases "instant cur < instant es")
    case True
    obtain s1 c1 where e: "emit_slots es acc cur = (s1, c1)" by (cases "emit_slots es acc cur")
    have "emit_run es (acc, cur) (s1, c1)" using emit_run_total [of es acc cur] e by simp
    from sweep_emit [OF True this Cons.IH [of s1 "max_dt c1 ee"]] True e show ?thesis
      by (simp add: b sweep.simps(2))
  next
    case False
    from sweep_skip [OF False Cons.IH [of acc "max_dt cur ee"]] False show ?thesis
      by (simp add: b sweep.simps(2))
  qed
qed

lemma sweep_run_result: "sweep_run busy st st' \<Longrightarrow> st' = sweep busy (fst st) (snd st)"
proof (induction rule: sweep_run.induct)
  case (sweep_done st)
  then show ?case by simp
next
  case (sweep_emit cur es acc s1 c1 busy ee st')
  from emit_run_result [OF sweep_emit(2), symmetric] sweep_emit(1,4) show ?case
    by (simp add: sweep.simps(2))
next
  case (sweep_skip cur es busy acc ee st')
  then show ?case by (simp add: sweep.simps(2))
qed

lemma free_slots_run_total: "free_slots_run s e busy (free_slots s e busy)"
proof -
  obtain s1 c1 where sw: "sweep busy [] s = (s1, c1)" by (cases "sweep busy [] s")
  obtain s2 c2 where em: "emit_slots e s1 c1 = (s2, c2)" by (cases "emit_slots e s1 c1")
  have 1: "sweep_run busy ([], s) (s1, c1)" using sweep_run_total [of busy "[]" s] sw by simp
  have 2: "emit_run e (s1, c1) (s2, c2)" using emit_run_total [of e s1 c1] em by simp
  from free_slots_runI [OF 1 2] show ?thesis by (simp add: free_slots_def sw em)
qed

lemma free_slots_run_result:
  assumes "free_slots_run s e busy r"
  shows "r = free_slots s e busy"
  using assms
proof (cases rule: free_slots_run.cases)
  case (free_slots_runI st cur)
  from sweep_run_result [OF free_slots_runI(1)]
    emit_run_result [OF free_slots_runI(2), symmetric]
  show ?thesis by (simp add: free_slots_def split_beta)
qed

text \<open>
  C9. The slot computation is deterministic: for a fixed window and a fixed list of busy
  intervals the loops have a run, and any two runs on that input end with the same list
  of slots.
\<close>

theorem free_slots_deterministic:
  "free_slots_run start_dt end_dt busy (free_slots start_dt end_dt busy)
   \<and> (\<forall>r1 r2. free_slots_run start_dt end_dt busy r1
         \<longrightarrow> free_slots_run start_dt end_dt busy r2 \<longrightarrow> r1 = r2)"
  using free_slots_run_total free_slots_run_result by blast

text \<open>
  C9, at the window 09:00 to 12:00 with the busy interval 10:00 to 10:30: a run yields the
  two slots, and they are what the function computes.
\<close>

theorem free_slots_deterministic_witness:
  "free_slots_run (at 9 0) (at 12 0) [(at 10 0, at 10 30)] [(at 9 0, at 10 0), (at 10 30, at 11 30)]
   \<and> [(at 9 0, at 10 0), (at 10 30, at 11 30)] = free_slots (at 9 0) (at 12 0) [(at 10 0, at 10 30)]"
proof -
  have ev: "free_slots (at 9 0) (at 12 0) [(at 10 0, at 10 30)]
              = [(at 9 0, at 10 0), (at 10 30, at 11 30)]"
    by (simp add: free_slots_def emit_slots.simps at_def hour_def minute_def
          plus_timedelta_def max_dt_def sweep.simps(2))
  note d = free_slots_deterministic [of "at 9 0" "at 12 0" "[(at 10 0, at 10 30)]"]
  from d have run: "free_slots_run (at 9 0) (at 12 0) [(at 10 0, at 10 30)]
                      [(at 9 0, at 10 0), (at 10 30, at 11 30)]"
    unfolding ev by blast
  from d run show ?thesis by blast
qed

section \<open>Properties of the tools\<close>

subsection \<open>Reading the events\<close>

lemma sweep_events_read:
  "map (event_interval E) events = map Some busy
   \<Longrightarrow> sweep_events E events acc cur = Inr (sweep busy acc cur)"
proof (induction events arbitrary: busy acc cur)
  case Nil
  then show ?case by simp
next
  case (Cons ev events)
  then obtain b bs where busy: "busy = b # bs" and b: "event_interval E ev = Some b"
    and rest: "map (event_interval E) events = map Some bs"
    by (cases busy) auto
  obtain es ee where "b = (es, ee)" by (cases b)
  with b have st: "event_time E ev ''start'' = Inr es" and en: "event_time E ev ''end'' = Inr ee"
    by (auto simp: event_interval_def split: sum.splits)
  show ?case
    using Cons.IH [OF rest]
    by (simp add: busy \<open>b = (es, ee)\<close> st en sweep.simps(2) split: prod.splits)
qed

lemma sweep_events_unreadable:
  "ev \<in> set events \<Longrightarrow> event_interval E ev = None
   \<Longrightarrow> \<exists>e. sweep_events E events acc cur = Inl e"
proof (induction events arbitrary: acc cur)
  case Nil
  then show ?case by simp
next
  case (Cons x events)
  show ?case
  proof (cases "event_interval E x")
    case None
    then show ?thesis
      by (auto simp: event_interval_def split: sum.splits prod.splits)
  next
    case (Some b)
    then have "ev \<in> set events" using Cons.prems by auto
    from Cons.IH [OF this Cons.prems(2)] show ?thesis
      by (auto split: sum.splits prod.splits)
  qed
qed

lemma lacks_dateTime_unreadable:
  "lacks_dateTime ev \<Longrightarrow> event_interval E ev = None"
  by (auto simp: lacks_dateTime_def event_interval_def event_time_def date_parse_def
      split: option.splits sum.splits)

subsection \<open>What the handlers print\<close>

lemma stdout_accepts_ascii: "list_all is_ascii line \<Longrightarrow> stdout_accepts E line"
  by (simp add: stdout_accepts_def list_all_iff)

lemma stdout_accepts_prefixed:
  "list_all is_ascii prefix \<Longrightarrow> stdout_accepts E text \<Longrightarrow> stdout_accepts E (prefix @ text)"
  by (auto simp: stdout_accepts_def list_all_iff)

lemma except_Exception_printed:
  "list_all is_ascii prefix \<Longrightarrow> stdout_accepts E (snd e)
   \<Longrightarrow> except_Exception E prefix e reply = Inr reply"
  by (simp add: except_Exception_def stdout_accepts_prefixed)

lemma ascii_prefix_check_availability: "list_all is_ascii ''ERROR in check_availability: ''"
  by code_simp

lemma ascii_unknown_format: "list_all is_ascii ''Unknown string format: ''"
  by code_simp

lemma ascii_not_a_string:
  "list_all is_ascii ''Parser must be a string or character stream, not NoneType''"
  by code_simp

lemma ascii_naive_aware:
  "list_all is_ascii
     (''can'' @ [CHR 0x27] @ ''t compare offset-naive and offset-aware datetimes'')"
  by code_simp

lemma ascii_keys:
  "list_all is_ascii ([CHR 0x27] @ ''start'' @ [CHR 0x27])"
  "list_all is_ascii ([CHR 0x27] @ ''end'' @ [CHR 0x27])"
  by code_simp+

text \<open>
  The text of an exception raised while an event's time is read: fixed ASCII text, or the
  text of a \<open>ParserError\<close>, which quotes the event's \<open>dateTime\<close> string.
\<close>

lemma event_time_error_text:
  assumes "event_time E ev key = Inl e" and "key = ''start'' \<or> key = ''end''"
    and "\<forall>s\<in>set (dateTime_texts ev). stdout_accepts E s"
  shows "stdout_accepts E (snd e)"
proof (cases "ev key")
  case None
  then have "snd e = [CHR 0x27] @ key @ [CHR 0x27]"
    using assms(1) by (auto simp: event_time_def)
  then show ?thesis
    using assms(2) ascii_keys [THEN stdout_accepts_ascii, of E] by auto
next
  case (Some d)
  show ?thesis
  proof (cases "d ''dateTime''")
    case None
    then have "snd e = ''Parser must be a string or character stream, not NoneType''"
      using assms(1) Some by (auto simp: event_time_def date_parse_def)
    then show ?thesis using stdout_accepts_ascii [OF ascii_not_a_string] by simp
  next
    case (Some s)
    have mem: "s \<in> set (dateTime_texts ev)"
      using assms(2) \<open>ev key = Some d\<close> Some by (auto simp: dateTime_texts_def)
    show ?thesis
    proof (cases "parse E s")
      case None
      then have "snd e = ''Unknown string format: '' @ s"
        using assms(1) \<open>ev key = Some d\<close> Some by (auto simp: event_time_def date_parse_def)
      then show ?thesis
        using mem assms(3) stdout_accepts_prefixed [OF ascii_unknown_format, of E s] by simp
    next
      case (Some p)
      then have "snd e
          = ''can'' @ [CHR 0x27] @ ''t compare offset-naive and offset-aware datetimes''"
        using assms(1) \<open>ev key = Some d\<close> \<open>d ''dateTime'' = Some s\<close>
        by (auto simp: event_time_def date_parse_def aware_def split: parsed.splits)
      then show ?thesis using stdout_accepts_ascii [OF ascii_naive_aware, of E] by simp
    qed
  qed
qed

lemma sweep_events_error_text:
  assumes "sweep_events E events acc cur = Inl e"
    and "\<forall>ev\<in>set events. \<forall>s\<in>set (dateTime_texts ev). stdout_accepts E s"
  shows "stdout_accepts E (snd e)"
  using assms
proof (induction events arbitrary: acc cur)
  case Nil
  then show ?case by simp
next
  case (Cons x events)
  have texts: "\<forall>s\<in>set (dateTime_texts x). stdout_accepts E s" using Cons.prems(2) by simp
  show ?case
  proof (cases "event_time E x ''start''")
    case (Inl a)
    then have "e = a" using Cons.prems(1) by simp
    then show ?thesis using event_time_error_text [OF Inl _ texts] by simp
  next
    case st: (Inr event_start)
    show ?thesis
    proof (cases "event_time E x ''end''")
      case (Inl a)
      then have "e = a" using Cons.prems(1) st by (simp split: prod.splits)
      then show ?thesis using event_time_error_text [OF Inl _ texts] by simp
    next
      case en: (Inr event_end)
      obtain slots1 current1 where
        "sweep_events E events slots1 (max_dt current1 event_end) = Inl e"
        using Cons.prems(1) st en by (auto split: prod.splits)
      from Cons.IH [OF this] Cons.prems(2) show ?thesis by simp
    qed
  qed
qed

text \<open>
  When every event can be read, the tool's reply is built from the slots of the sweep over
  the events' intervals.
\<close>

lemma check_availability_sweeps:
  assumes "service E = None" and "parse E start_time = Some ps" and "parse E end_time = Some pe"
    and "events_list E (localize (local_tz E) ps) (localize (local_tz E) pe) = Inr (Some items)"
    and "items \<noteq> []"
    and "map (event_interval E) items = map Some busy"
  shows "check_availability E start_time end_time
           = Inr (slots_reply
                    (free_slots (localize (local_tz E) ps) (localize (local_tz E) pe) busy))"
  using assms(1-5) sweep_events_read [OF assms(6), of "[]" "localize (local_tz E) ps"]
  by (simp add: check_availability_def check_availability_try_def date_parse_def
        free_slots_def split_beta Let_def)

lemma check_availability_half_hour_event:
  "check_availability (sample_env (Some [timed_event ''10:00Z'' ''10:30Z''])) ''09:00'' ''12:00''
     = Inr ''Here are the available 1-hour slots: 09:00 AM - 10:00 AM, 10:30 AM - 11:30 AM. Please suggest these to the user.''"
  by code_simp

subsection \<open>No busy events\<close>

text \<open>
  C3 (as the code behaves). When the provider returns no busy event, \<open>check_availability\<close>
  does not run the sweep: line 67 returns the reply that the entire period is free. The
  sweep of lines 69 to 84, on an empty list of busy intervals, gives
  \<open>floor((end - start) / 1 hour)\<close> consecutive one-hour slots from the window's start
  (none when the end is not after the start).
\<close>

theorem check_availability_no_events:
  assumes "service E = None" and "parse E start_time = Some ps" and "parse E end_time = Some pe"
    and "events_list E (localize (local_tz E) ps) (localize (local_tz E) pe) = Inr items"
    and "items = None \<or> items = Some []"
  shows "check_availability E start_time end_time
           = Inr (entire_period_free (localize (local_tz E) ps) (localize (local_tz E) pe))
       \<and> free_slots (localize (local_tz E) ps) (localize (local_tz E) pe) []
           = map (\<lambda>i. (plus_timedelta (localize (local_tz E) ps) (int i * hour),
                        plus_timedelta (localize (local_tz E) ps) (int (Suc i) * hour)))
               [0 ..< nat ((instant (localize (local_tz E) pe)
                             - instant (localize (local_tz E) ps)) div hour)]"
  using assms
  by (auto simp: check_availability_def check_availability_try_def date_parse_def
        free_slots_Nil)

text \<open>
  C3, at the window 09:00 to 12:00: the reply names no slot, and the sweep on the empty list
  gives 09:00 to 10:00, 10:00 to 11:00 and 11:00 to 12:00.
\<close>

theorem check_availability_no_events_witness:
  "service (sample_env None) = None
   \<and> parse (sample_env None) ''09:00'' = Some (Naive (9 * hour))
   \<and> parse (sample_env None) ''12:00'' = Some (Naive (12 * hour))
   \<and> check_availability (sample_env None) ''09:00'' ''12:00''
       = Inr ''The entire period from 09:00 AM to 12:00 PM is free. Suggest 1-hour slots.''
   \<and> free_slots (at 9 0) (at 12 0) [] = [(at 9 0, at 10 0), (at 10 0, at 11 0), (at 11 0, at 12 0)]"
proof -
  let ?E = "sample_env None"
  have h1: "service ?E = None" by (simp add: sample_env_def)
  have h2: "parse ?E ''09:00'' = Some (Naive (9 * hour))"
    by (simp add: sample_env_def sample_parse_def)
  have h3: "parse ?E ''12:00'' = Some (Naive (12 * hour))"
    by (simp add: sample_env_def sample_parse_def)
  have h4: "events_list ?E (localize (local_tz ?E) (Naive (9 * hour)))
              (localize (local_tz ?E) (Naive (12 * hour))) = Inr None"
    by (simp add: sample_env_def)
  have l1: "localize (local_tz ?E) (Naive (9 * hour)) = at 9 0"
    and l2: "localize (local_tz ?E) (Naive (12 * hour)) = at 12 0"
    by (simp_all add: sample_env_def localize_def at_def)
  have r: "entire_period_free (at 9 0) (at 12 0)
             = ''The entire period from 09:00 AM to 12:00 PM is free. Suggest 1-hour slots.''"
    by code_simp
  have n: "nat ((instant (at 12 0) - instant (at 9 0)) div hour) = 3"
    by (simp add: at_def hour_def minute_def)
  have u: "[0 ..< 3] = [0, 1, 2]" by (simp add: upt_rec)
  have m: "map (\<lambda>i. (plus_timedelta (at 9 0) (int i * hour),
                      plus_timedelta (at 9 0) (int (Suc i) * hour))) [0, 1, 2]
             = [(at 9 0, at 10 0), (at 10 0, at 11 0), (at 11 0, at 12 0)]"
    by (simp add: at_def plus_timedelta_def hour_def minute_def)
  from check_availability_no_events [OF h1 h2 h3 h4] h1 h2 h3 show ?thesis
    unfolding l1 l2 r n u m by simp
qed

text \<open>
  C3 (as stated) fails: for the window 09:00 to 12:00 with no busy event the reply of
  \<open>check_availability\<close> is not the list of the three slots.
\<close>

theorem check_availability_no_events_lists_no_slots:
  "check_availability (sample_env None) ''09:00'' ''12:00''
     = Inr ''The entire period from 09:00 AM to 12:00 PM is free. Suggest 1-hour slots.''
   \<and> check_availability (sample_env None) ''09:00'' ''12:00''
     \<noteq> Inr (slots_reply [(at 9 0, at 10 0), (at 10 0, at 11 0), (at 11 0, at 12 0)])"
  by code_simp

subsection \<open>Failures and the handler\<close>

text \<open>
  When \<open>start_time\<close> or \<open>end_time\<close> cannot be parsed and \<open>sys.stdout\<close> can encode both
  strings, the handler prints its line and returns the fixed text of line 93.
\<close>

lemma check_availability_unparseable_printed:
  assumes "service E = None"
    and "parse E start_time = None \<or> parse E end_time = None"
    and "stdout_accepts E start_time" and "stdout_accepts E end_time"
  shows "check_availability E start_time end_time = Inr calendar_error"
proof -
  have "\<exists>s. (s = start_time \<or> s = end_time)
          \<and> check_availability_try E start_time end_time
              = Inl (ParserError, ''Unknown string format: '' @ s)"
  proof (cases "parse E start_time")
    case None
    then have "check_availability_try E start_time end_time
                 = Inl (ParserError, ''Unknown string format: '' @ start_time)"
      using assms(1) by (simp add: check_availability_try_def date_parse_def)
    then show ?thesis by blast
  next
    case (Some ps)
    then have "parse E end_time = None" using assms(2) by simp
    then have "check_availability_try E start_time end_time
                 = Inl (ParserError, ''Unknown string format: '' @ end_time)"
      using assms(1) Some by (simp add: check_availability_try_def date_parse_def)
    then show ?thesis by blast
  qed
  then obtain s where s: "s = start_time \<or> s = end_time"
    and raised: "check_availability_try E start_time end_time
                   = Inl (ParserError, ''Unknown string format: '' @ s)"
    by blast
  have "stdout_accepts E (''Unknown string format: '' @ s)"
    by (rule stdout_accepts_prefixed [OF ascii_unknown_format]) (use s assms(3,4) in auto)
  then have "except_Exception E ''ERROR in check_availability: ''
               (ParserError, ''Unknown string format: '' @ s) calendar_error
             = Inr calendar_error"
    by (intro except_Exception_printed ascii_prefix_check_availability) simp
  then show ?thesis by (simp add: check_availability_def raised)
qed

text \<open>
  C7 fails on the code. The start time is the one character U+00E9, which the parser
  rejects; the \<open>ParserError\<close> quotes it, \<open>sys.stdout\<close> (ASCII here) cannot encode the line
  that the handler prints on line 92, and \<open>UnicodeEncodeError\<close> leaves
  \<open>check_availability\<close> in place of the text of line 93.
\<close>

theorem check_availability_unparseable_raises:
  "parse (sample_env None) [CHR 0xE9] = None
   \<and> check_availability (sample_env None) [CHR 0xE9] ''12:00'' = Inl UnicodeEncodeError"
  by code_simp

text \<open>
  C10. When the provider has returned the events and one of them has no \<open>dateTime\<close> in its
  \<open>start\<close> or its \<open>end\<close> (an all-day event carries only \<open>date\<close>), \<open>check_availability\<close>
  returns the fixed text of line 93 and no list of slots. The handler prints the text of
  the exception first: for a missing \<open>dateTime\<close> that text is fixed ASCII, and the
  \<open>dateTime\<close> strings that the response does hold (RFC 3339 timestamps) are text that
  \<open>sys.stdout\<close> can encode.
\<close>

theorem check_availability_all_day_event:
  assumes "service E = None"
    and "parse E start_time = Some ps" and "parse E end_time = Some pe"
    and "events_list E (localize (local_tz E) ps) (localize (local_tz E) pe) = Inr (Some items)"
    and "\<forall>ev\<in>set items. \<forall>s\<in>set (dateTime_texts ev). stdout_accepts E s"
    and "event \<in> set items" and "lacks_dateTime event"
  shows "check_availability E start_time end_time = Inr calendar_error"
proof -
  have ne: "items \<noteq> []" using assms(6) by auto
  obtain e where e: "sweep_events E items [] (localize (local_tz E) ps) = Inl e"
    using sweep_events_unreadable [OF assms(6) lacks_dateTime_unreadable [OF assms(7)]] by blast
  have "except_Exception E ''ERROR in check_availability: '' e calendar_error
          = Inr calendar_error"
    using ascii_prefix_check_availability sweep_events_error_text [OF e assms(5)]
    by (rule except_Exception_printed)
  then show ?thesis
    using assms(1-4) ne e
    by (simp add: check_availability_def check_availability_try_def date_parse_def)
qed

text \<open>
  C10, at a response with one timed event and one all-day event: the service is built, the
  two \<open>dateTime\<close> strings of the response are text that \<open>sys.stdout\<close> accepts, and the
  reply is the fixed text.
\<close>

theorem check_availability_all_day_event_witness:
  "service (sample_env (Some [timed_event ''10:00Z'' ''10:30Z'', all_day_event ''2024-05-01'' ''2024-05-02'']))
       = None
   \<and> parse (sample_env (Some [timed_event ''10:00Z'' ''10:30Z'', all_day_event ''2024-05-01'' ''2024-05-02'']))
       ''09:00'' = Some (Naive (9 * hour))
   \<and> dateTime_texts (timed_event ''10:00Z'' ''10:30Z'') = [''10:00Z'', ''10:30Z'']
   \<and> dateTime_texts (all_day_event ''2024-05-01'' ''2024-05-02'') = []
   \<and> stdout_accepts
        (sample_env (Some [timed_event ''10:00Z'' ''10:30Z'', all_day_event ''2024-05-01'' ''2024-05-02'']))
        ''10:00Z''
   \<and> stdout_accepts
        (sample_env (Some [timed_event ''10:00Z'' ''10:30Z'', all_day_event ''2024-05-01'' ''2024-05-02'']))
        ''10:30Z''
   \<and> lacks_dateTime (all_day_event ''2024-05-01'' ''2024-05-02'')
   \<and> check_availability
        (sample_env (Some [timed_event ''10:00Z'' ''10:30Z'', all_day_event ''2024-05-01'' ''2024-05-02'']))
        ''09:00'' ''12:00''
       = Inr ''An error occurred while checking the calendar. Please try again or specify a different time.''"
proof -
  let ?items = "[timed_event ''10:00Z'' ''10:30Z'', all_day_event ''2024-05-01'' ''2024-05-02'']"
  let ?E = "sample_env (Some ?items)"
  have h0: "service ?E = None" by (simp add: sample_env_def)
  have h1: "parse ?E ''09:00'' = Some (Naive (9 * hour))"
    by (simp add: sample_env_def sample_parse_def)
  have h2: "parse ?E ''12:00'' = Some (Naive (12 * hour))"
    by (simp add: sample_env_def sample_parse_def)
  have h3: "events_list ?E (localize (local_tz ?E) (Naive (9 * hour)))
              (localize (local_tz ?E) (Naive (12 * hour))) = Inr (Some ?items)"
    by (simp add: sample_env_def)
  have t1: "dateTime_texts (timed_event ''10:00Z'' ''10:30Z'') = [''10:00Z'', ''10:30Z'']"
    by (simp add: dateTime_texts_def timed_event_def)
  have t2: "dateTime_texts (all_day_event ''2024-05-01'' ''2024-05-02'') = []"
    by (simp add: dateTime_texts_def all_day_event_def)
  have a: "list_all is_ascii ''10:00Z''" "list_all is_ascii ''10:30Z''" by code_simp+
  have h4: "\<forall>ev\<in>set ?items. \<forall>s\<in>set (dateTime_texts ev). stdout_accepts ?E s"
    using a [THEN stdout_accepts_ascii, of ?E] by (simp add: t1 t2)
  have h5: "all_day_event ''2024-05-01'' ''2024-05-02'' \<in> set ?items" by simp
  have h6: "lacks_dateTime (all_day_event ''2024-05-01'' ''2024-05-02'')"
    by (simp add: lacks_dateTime_def all_day_event_def)
  from check_availability_all_day_event [OF h0 h1 h2 h3 h4 h5 h6] h0 h1 t1 t2 h6
    a [THEN stdout_accepts_ascii, of ?E]
  show ?thesis
    by (simp add: calendar_error_def)
qed

subsection \<open>Booking\<close>




section \<open>Properties of the agent graph\<close>

text \<open>
  C8. After the model has answered, the graph goes from \<open>agent\<close> to \<open>action\<close> if and only
  if the response has at least one tool call, and to \<open>END\<close> otherwise; a turn whose first
  response has no tool call runs the node \<open>agent\<close> once, never runs \<open>action\<close>, and its
  output is that response.
\<close>

theorem agent_halts_without_tool_calls:
  assumes "agent_runnable G state = Inr response"
  shows "graph_step G (Agent, state)
           = Inr (if tool_calls response \<noteq> [] then Action else END, state @ [response])
       \<and> (tool_calls response = [] \<longrightarrow>
            agent_app G (Suc fuel) state = Some (Inr ([Agent], state @ [response]))
            \<and> turn_output (state @ [response]) = content response)"
  using assms
  by (simp add: run_agent_def should_continue_def route_def agent_app_def turn_output_def)

text \<open>
  C8, at a model that answers in plain text.
\<close>

theorem agent_halts_without_tool_calls_witness:
  "agent_runnable plain_agent [\<lparr>content = ''hi'', tool_calls = []\<rparr>]
       = Inr \<lparr>content = ''Hello! How can I help?'', tool_calls = []\<rparr>
   \<and> graph_step plain_agent (Agent, [\<lparr>content = ''hi'', tool_calls = []\<rparr>])
       = Inr (END, [\<lparr>content = ''hi'', tool_calls = []\<rparr>,
                    \<lparr>content = ''Hello! How can I help?'', tool_calls = []\<rparr>])
   \<and> agent_app plain_agent 1 [\<lparr>content = ''hi'', tool_calls = []\<rparr>]
       = Some (Inr ([Agent], [\<lparr>content = ''hi'', tool_calls = []\<rparr>,
                              \<lparr>content = ''Hello! How can I help?'', tool_calls = []\<rparr>]))"
proof -
  have h: "agent_runnable plain_agent [\<lparr>content = ''hi'', tool_calls = []\<rparr>]
             = Inr \<lparr>content = ''Hello! How can I help?'', tool_calls = []\<rparr>"
    by (simp add: plain_agent_def)
  from agent_halts_without_tool_calls [OF h, of 0] h show ?thesis by simp
qed

end
